theory Spec2Isabelle
  imports Complex_Main "HOL-Library.Multiset"
begin

section \<open>Strings, file names and number formatting\<close>

text \<open>
  File names are Python strings; they are modelled as \<open>string\<close> (lists of 8-bit
  characters, a name being its UTF-8 bytes). \<open>str.lower()\<close> is modelled on the ASCII
  letters and leaves every other byte alone. For the three extensions the programs look
  at this is what Python computes: no character outside ASCII lowercases to one of the
  letters of \<open>.png\<close>, \<open>.jpg\<close> or \<open>.jpeg\<close>.
\<close>

definition lower_char :: "char \<Rightarrow> char" where
  "lower_char c =
     (if (65::nat) \<le> of_char c \<and> of_char c \<le> (90::nat)
      then char_of (of_char c + (32::nat)) else c)"

definition lower :: "string \<Rightarrow> string" where
  "lower s = map lower_char s"

text \<open>\<open>s.endswith(suf)\<close>.\<close>

definition endswith :: "string \<Rightarrow> string \<Rightarrow> bool" where
  "endswith s suf = (length suf \<le> length s \<and> drop (length s - length suf) s = suf)"

text \<open>\<open>s.startswith(pre)\<close>.\<close>

definition startswith :: "string \<Rightarrow> string \<Rightarrow> bool" where
  "startswith s pre = (take (length pre) s = pre)"

text \<open>\<open>s.rfind(c)\<close>: the index of the last occurrence of \<open>c\<close>, or \<open>-1\<close>.\<close>

definition rfind :: "string \<Rightarrow> char \<Rightarrow> int" where
  "rfind s c =
     (if c \<in> set s
      then int (length s) - 1 - int (length (takeWhile (\<lambda>x. x \<noteq> c) (rev s)))
      else - 1)"

text \<open>
  \<open>pathlib\<close>'s \<open>Path.suffix\<close> of a final path component:
  \<^verbatim>\<open>
    i = name.rfind('.')
    if 0 < i < len(name) - 1: return name[i:]
    else: return ''
  \<close>
  A name that starts with its only dot (\<open>.png\<close>) has no suffix.
\<close>

definition path_suffix :: "string \<Rightarrow> string" where
  "path_suffix name =
     (let i = rfind name CHR ''.''
      in if 0 < i \<and> i < int (length name) - 1 then drop (nat i) name else [])"

text \<open>The decimal digit \<open>d\<close> (for \<open>d < 10\<close>) and \<open>str(n)\<close> for a natural number.\<close>

definition digit_char :: "nat \<Rightarrow> char" where
  "digit_char d = char_of (48 + d)"

definition is_digit :: "char \<Rightarrow> bool" where
  "is_digit c = ((48::nat) \<le> of_char c \<and> of_char c \<le> (57::nat))"

fun str_nat :: "nat \<Rightarrow> string" where
  "str_nat n = (if n < 10 then [digit_char n] else str_nat (n div 10) @ [digit_char (n mod 10)])"

declare str_nat.simps [simp del]

text \<open>The format \<open>{n:02d}\<close>: \<open>str(n)\<close> padded with zeros on the left to width 2.\<close>

definition fmt02d :: "nat \<Rightarrow> string" where
  "fmt02d n = (let s = str_nat n in replicate (2 - length s) CHR ''0'' @ s)"

section \<open>Plan computation\<close>

text \<open>
  A plan entry is the triple \<open>(file_path, temp, final)\<close>. All paths of a pass lie in the
  one watched directory, so a path is identified with its name.
\<close>

type_synonym rename = "string \<times> string \<times> string"

definition expected_for :: "string \<Rightarrow> nat \<Rightarrow> string \<Rightarrow> string" where
  "expected_for prefix i file_path =
     prefix @ ''_'' @ fmt02d (i + 1) @ lower (path_suffix file_path)"

definition temp_for :: "string \<Rightarrow> nat \<Rightarrow> string \<Rightarrow> string" where
  "temp_for prefix i file_path =
     ''TEMP_'' @ fmt02d (i + 1) @ ''_'' @ prefix @ lower (path_suffix file_path)"

text \<open>
  The corrected watcher (\<open>rename_images_watcher_CORRECTED.py\<close>):
  \<^verbatim>\<open>
    renames = []
    for i, file_path in enumerate(existing_files):
        ext = file_path.suffix.lower()
        expected = f"{self.prefix}_{i+1:02d}{ext}"
        if file_path.name != expected:
            temp = f"TEMP_{i+1:02d}_{self.prefix}{ext}"
            renames.append((file_path, temp, expected))
  \<close>
\<close>

fun collect_renames :: "string \<Rightarrow> (nat \<times> string) list \<Rightarrow> rename list" where
  "collect_renames prefix [] = []"
| "collect_renames prefix ((i, file_path) # rest) =
     (let ext = lower (path_suffix file_path);
          expected = prefix @ ''_'' @ fmt02d (i + 1) @ ext
      in if file_path \<noteq> expected
         then (let temp = ''TEMP_'' @ fmt02d (i + 1) @ ''_'' @ prefix @ ext
               in (file_path, temp, expected) # collect_renames prefix rest)
         else collect_renames prefix rest)"

definition compute_renames :: "string \<Rightarrow> string list \<Rightarrow> rename list" where
  "compute_renames prefix existing_files = collect_renames prefix (enumerate 0 existing_files)"

text \<open>
  The original watcher (\<open>rename_images_watcher.py\<close>) fills two lists in the same loop:
  \<^verbatim>\<open>
    temp_names = []
    files_to_rename = []
    for i, file_path in enumerate(all_files):
        ext = file_path.suffix.lower()
        expected_name = f"{self.prefix}_{i+1:02d}{ext}"
        current_name = file_path.name
        if current_name != expected_name:
            temp_name = f"TEMP_{i+1:02d}_{self.prefix}{ext}"
            temp_names.append((file_path, temp_name, expected_name))
            files_to_rename.append(file_path)
  \<close>
\<close>

fun collect_temp_names :: "string \<Rightarrow> (nat \<times> string) list \<Rightarrow> rename list \<times> string list" where
  "collect_temp_names prefix [] = ([], [])"
| "collect_temp_names prefix ((i, file_path) # rest) =
     (let ext = lower (path_suffix file_path);
          expected_name = prefix @ ''_'' @ fmt02d (i + 1) @ ext;
          current_name = file_path;
          (temp_names, files_to_rename) = collect_temp_names prefix rest
      in if current_name \<noteq> expected_name
         then (let temp_name = ''TEMP_'' @ fmt02d (i + 1) @ ''_'' @ prefix @ ext
               in ((file_path, temp_name, expected_name) # temp_names,
                   file_path # files_to_rename))
         else (temp_names, files_to_rename))"

definition compute_temp_names :: "string \<Rightarrow> string list \<Rightarrow> rename list \<times> string list" where
  "compute_temp_names prefix all_files = collect_temp_names prefix (enumerate 0 all_files)"

section \<open>The stability probe\<close>

text \<open>
  The probe polls the clock and the file. One observation of the file is a \<open>probe\<close>:
  \<open>Gone\<close> when \<open>file_path.exists()\<close> is false, \<open>StatError\<close> when \<open>stat()\<close> raises
  \<open>OSError\<close>, \<open>Size n\<close> when \<open>stat().st_size\<close> is \<open>n\<close>. The environment is a trace: the
  \<open>k\<close>-th element holds the value of \<open>time.time() - start_time\<close> read by the \<open>k\<close>-th
  evaluation of the loop condition and what the file shows right after it. A trace that
  ends before the probe has returned gives no verdict (\<open>None\<close>).

  \<^verbatim>\<open>
    while time.time() - start_time < timeout:
        try:
            if not file_path.exists(): return False
            current_size = file_path.stat().st_size
            if current_size > 0:
                if current_size == last_size:
                    stable_count += 1
                    if stable_count >= 2: return True
                else:
                    stable_count = 0
            last_size = current_size
            time.sleep(0.2)
        except (OSError, FileNotFoundError):
            return False
    try:
        final_size = file_path.stat().st_size
        if final_size > 0: return True
    except: pass
    return False
  \<close>
  The loop body is the same in both watchers (\<open>wait_for_file_stable\<close> in the original,
  \<open>_wait_file_stable\<close> in the corrected one).
\<close>

datatype probe = Gone | StatError | Size int

fun stable_loop :: "real \<Rightarrow> (real \<times> probe) list \<Rightarrow> int \<Rightarrow> nat \<Rightarrow> bool option" where
  "stable_loop timeout [] last_size stable_count = None"
| "stable_loop timeout ((elapsed, p) # rest) last_size stable_count =
     (if elapsed < timeout
      then (case p of
              Gone \<Rightarrow> Some False
            | StatError \<Rightarrow> Some False
            | Size current_size \<Rightarrow>
                if current_size > 0
                then (if current_size = last_size
                      then (if stable_count + 1 \<ge> 2 then Some True
                            else stable_loop timeout rest current_size (stable_count + 1))
                      else stable_loop timeout rest current_size 0)
                else stable_loop timeout rest current_size stable_count)
      else (case p of
              Size final_size \<Rightarrow> if final_size > 0 then Some True else Some False
            | _ \<Rightarrow> Some False))"

definition wait_for_file_stable :: "(real \<times> probe) list \<Rightarrow> bool option" where
  "wait_for_file_stable trace = stable_loop 5 trace (- 1) 0"

definition wait_file_stable :: "(real \<times> probe) list \<Rightarrow> bool option" where
  "wait_file_stable trace = stable_loop 5 trace (- 1) 0"

section \<open>The directory\<close>

text \<open>
  A directory entry is described by what it is and by what the calls of the programs
  observe of it. \<open>kind\<close> is what the entry is (it decides whether a rename may replace
  it). \<open>is_file\<close> and \<open>exists\<close> are the results of \<open>Path.is_file()\<close> and \<open>Path.exists()\<close>:
  both call \<open>stat\<close> and give \<open>False\<close> when it fails with \<open>ENOENT\<close>, \<open>ENOTDIR\<close>, \<open>EBADF\<close>
  or \<open>ELOOP\<close>, and raise every other \<open>OSError\<close> (\<open>EACCES\<close>, say), which is the value
  \<open>None\<close> here. \<open>stat\<close> is the result of \<open>Path.stat()\<close> and of \<open>os.stat\<close> (\<open>None\<close> when it
  raises \<open>OSError\<close>), \<open>readable\<close> says whether opening the file and reading one byte
  succeeds, \<open>renamable\<close> whether the operating system lets the entry be renamed (it
  refuses a file that another process has locked, for one). A phantom entry is one that
  the directory lists although some of these fail.
\<close>

datatype kind = File | EmptyDirectory | NonEmptyDirectory

record stat_result =
  st_size :: int
  st_ctime :: real

record entry =
  kind :: kind
  is_file :: "bool option"
  exists :: "bool option"
  stat :: "stat_result option"
  readable :: bool
  renamable :: bool

type_synonym directory = "string \<rightharpoonup> entry"

text \<open>
  Three things depend on the operating system. \<open>Path.glob\<close> matches names without regard
  to case on Windows (\<open>pathlib\<close> compiles the pattern with \<open>re.IGNORECASE\<close> there) and
  exactly on POSIX. \<open>Path.rename\<close> replaces an existing target on POSIX and raises
  \<open>FileExistsError\<close> on Windows. \<open>os.path.getctime\<close> is \<open>st_ctime\<close>, which is the creation
  time on Windows, where a rename leaves it as it is, and the time of the last change of
  the inode on POSIX, where a rename sets it to the time of the call. (Windows is taken
  without file-system tunnelling, by which a name that comes back within fifteen seconds
  takes over the creation time of the entry that had the name before.)
\<close>

record platform =
  glob_case_sensitive :: bool
  rename_replaces :: bool
  rename_keeps_ctime :: bool

definition posix :: platform where
  "posix = \<lparr>glob_case_sensitive = True, rename_replaces = True, rename_keeps_ctime = False\<rparr>"

definition windows :: platform where
  "windows = \<lparr>glob_case_sensitive = False, rename_replaces = False, rename_keeps_ctime = True\<rparr>"

text \<open>
  \<open>p.is_file()\<close> and \<open>p.exists()\<close> for the path of a name; a name without an entry
  gives \<open>False\<close>.
\<close>

definition path_is_file :: "directory \<Rightarrow> string \<Rightarrow> bool option" where
  "path_is_file dir p = (case dir p of None \<Rightarrow> Some False | Some e \<Rightarrow> is_file e)"

definition path_exists :: "directory \<Rightarrow> string \<Rightarrow> bool option" where
  "path_exists dir p = (case dir p of None \<Rightarrow> Some False | Some e \<Rightarrow> exists e)"

text \<open>\<open>os.path.getctime(p)\<close>; \<open>None\<close> when it raises \<open>OSError\<close>.\<close>

definition getctime :: "directory \<Rightarrow> string \<Rightarrow> real option" where
  "getctime dir p = (case dir p of None \<Rightarrow> None | Some e \<Rightarrow> map_option st_ctime (stat e))"

text \<open>
  \<open>src.rename(dst)\<close>, called at the time \<open>now\<close>. It raises (\<open>None\<close>) when the source is not
  there or the operating system refuses. Renaming an entry to its own name does nothing.
  A target that exists is replaced on POSIX if both are files, or if the source is a
  directory and the target an empty one (\<open>IsADirectoryError\<close>, \<open>NotADirectoryError\<close> or
  \<open>OSError\<close> otherwise), and never on Windows (\<open>FileExistsError\<close>). Otherwise the entry
  moves to the new name, and whatever was at the target is gone; where \<open>st_ctime\<close> is the
  time of the last change of the inode it becomes \<open>now\<close>. Names are compared exactly, as on
  a file system that distinguishes case.
\<close>

definition replaceable :: "kind \<Rightarrow> kind \<Rightarrow> bool" where
  "replaceable src_kind dst_kind =
     (if src_kind = File then dst_kind = File else dst_kind = EmptyDirectory)"

definition renamed :: "platform \<Rightarrow> real \<Rightarrow> entry \<Rightarrow> entry" where
  "renamed pf now e =
     (if rename_keeps_ctime pf then e
      else e\<lparr>stat := map_option (\<lambda>s. s\<lparr>st_ctime := now\<rparr>) (stat e)\<rparr>)"

definition rename :: "platform \<Rightarrow> real \<Rightarrow> directory \<Rightarrow> string \<Rightarrow> string \<Rightarrow> directory option" where
  "rename pf now dir src dst =
     (case dir src of
        None \<Rightarrow> None
      | Some e \<Rightarrow>
          if \<not> renamable e then None
          else if dst = src then Some dir
          else (case dir dst of
                  None \<Rightarrow> Some (dir(src := None, dst \<mapsto> renamed pf now e))
                | Some d \<Rightarrow>
                    if rename_replaces pf \<and> replaceable (kind e) (kind d)
                    then Some (dir(src := None, dst \<mapsto> renamed pf now e))
                    else None))"

section \<open>The file set resolver\<close>

text \<open>
  The corrected watcher, \<open>get_real_image_files\<close>. \<open>listdir\<close> is the result of
  \<open>os.listdir(directory)\<close>, in the order the operating system gives (\<open>None\<close> when it
  raises: the error is printed and the empty list returned).
  \<^verbatim>\<open>
    real_files = []
    try:
        all_items = os.listdir(directory)
        for item in all_items:
            file_path = directory / item
            if not file_path.is_file(): continue
            ext = item.lower()
            if not (ext.endswith('.png') or ext.endswith('.jpg') or ext.endswith('.jpeg')): continue
            try:
                if not file_path.exists(): continue
                stat_info = file_path.stat()
                if stat_info.st_size <= 0: continue
                with open(file_path, 'rb') as f:
                    f.read(1)
                real_files.append(file_path)
            except (OSError, PermissionError, FileNotFoundError, IOError):
                continue
    except Exception as e:
        print(...)
    return real_files
  \<close>
  \<open>is_file()\<close> is called outside the inner \<open>try\<close>: when it raises, the outer handler ends
  the loop, and the files found so far are returned. \<open>check_item\<close> is the body of the
  loop for one item: \<open>None\<close> when \<open>is_file()\<close> raises, otherwise whether the item is
  appended.
\<close>

definition check_item :: "directory \<Rightarrow> string \<Rightarrow> bool option" where
  "check_item dir item =
     (case path_is_file dir item of
        None \<Rightarrow> None
      | Some False \<Rightarrow> Some False
      | Some True \<Rightarrow>
          (let ext = lower item
           in if \<not> (endswith ext ''.png'' \<or> endswith ext ''.jpg'' \<or> endswith ext ''.jpeg'')
              then Some False
              else (case path_exists dir item of
                      None \<Rightarrow> Some False
                    | Some False \<Rightarrow> Some False
                    | Some True \<Rightarrow>
                        (case dir item of
                           None \<Rightarrow> Some False
                         | Some e \<Rightarrow>
                             (case stat e of
                                None \<Rightarrow> Some False
                              | Some stat_info \<Rightarrow>
                                  if st_size stat_info \<le> 0 then Some False
                                  else if \<not> readable e then Some False
                                  else Some True)))))"

fun collect_real_files :: "directory \<Rightarrow> string list \<Rightarrow> string list" where
  "collect_real_files dir [] = []"
| "collect_real_files dir (item # all_items) =
     (case check_item dir item of
        None \<Rightarrow> []
      | Some False \<Rightarrow> collect_real_files dir all_items
      | Some True \<Rightarrow> item # collect_real_files dir all_items)"

definition get_real_image_files :: "directory \<Rightarrow> string list option \<Rightarrow> string list" where
  "get_real_image_files dir listdir =
     (case listdir of
        None \<Rightarrow> []
      | Some all_items \<Rightarrow> collect_real_files dir all_items)"

text \<open>
  The original watcher collects its files with six \<open>glob\<close> calls. Each pattern is a star
  followed by literal characters, so a name matches when it ends with them; \<open>glob\<close> looks
  at the names only, directories and entries that cannot be read included.
  \<^verbatim>\<open>
    image_files = []
    for ext in ["*.png", "*.jpg", "*.jpeg"]:
        image_files.extend(list(directory.glob(ext)))
        image_files.extend(list(directory.glob(ext.upper())))
  \<close>
\<close>

definition upper_char :: "char \<Rightarrow> char" where
  "upper_char c =
     (if (97::nat) \<le> of_char c \<and> of_char c \<le> (122::nat)
      then char_of (of_char c - (32::nat)) else c)"

definition upper :: "string \<Rightarrow> string" where
  "upper s = map upper_char s"

definition glob_match :: "platform \<Rightarrow> string \<Rightarrow> string \<Rightarrow> bool" where
  "glob_match pf pattern name =
     (case pattern of
        [] \<Rightarrow> name = []
      | c # lit \<Rightarrow>
          if c = CHR ''*''
          then (if glob_case_sensitive pf then endswith name lit
                else endswith (lower name) (lower lit))
          else (if glob_case_sensitive pf then name = pattern
                else lower name = lower pattern))"

definition glob :: "platform \<Rightarrow> string list option \<Rightarrow> string \<Rightarrow> string list" where
  "glob pf listdir pattern =
     (case listdir of
        None \<Rightarrow> []
      | Some all_items \<Rightarrow> filter (glob_match pf pattern) all_items)"

definition glob_image_files :: "platform \<Rightarrow> string list option \<Rightarrow> string list" where
  "glob_image_files pf listdir =
     concat (map (\<lambda>ext. glob pf listdir ext @ glob pf listdir (upper ext))
                 [''*.png'', ''*.jpg'', ''*.jpeg''])"

text \<open>
  \<open>files.sort(key=lambda x: os.path.getctime(x))\<close>: the keys are computed first (one of
  them raising aborts the sort), then the list is sorted on the keys by a stable sort.
\<close>

definition sort_by_ctime :: "directory \<Rightarrow> string list \<Rightarrow> string list option" where
  "sort_by_ctime dir files =
     map_option (\<lambda>keyed. map snd (sort_key fst keyed))
       (those (map (\<lambda>f. map_option (\<lambda>t. (t, f)) (getctime dir f)) files))"

section \<open>The handler and the reconciliation pass\<close>

text \<open>
  The fields of \<open>ImageRenameHandler\<close>. \<open>processing_lock\<close> only makes the test and the
  setting of \<open>processing\<close> one step, which they are in this sequential model.
\<close>

record handler =
  prefix :: string
  processing :: bool
  last_event_time :: "string \<rightharpoonup> real"
  debounce_delay :: real
  temp_files :: "string set"

text \<open>How a pass ends, with the number of planned and of completed renames.\<close>

datatype outcome = NoFiles | AlreadyOrdered | Reorganized nat nat | Failed

text \<open>
  A loop that an exception can leave gives an \<open>attempt\<close>: \<open>Completed\<close> with the state at
  its end, or \<open>Raised\<close> with the state reached when the exception left it.
\<close>

datatype 's attempt = Completed 's | Raised 's

text \<open>
  The renames of a pass are made at times that the environment gives: \<open>clock k\<close> is the
  time at which the pass comes to the \<open>k\<close>-th entry of its two loops, counted from 0
  through phase 1 and on through phase 2.
\<close>

subsection \<open>The corrected watcher\<close>

text \<open>
  Phase 1. A rename that raises is reported and the loop goes on with the next entry.
  \<^verbatim>\<open>
    successful_phase1 = []
    for file_path, temp, final in renames:
        temp_path = file_path.parent / temp
        self.temp_files.add(temp)
        try:
            file_path.rename(temp_path)
            successful_phase1.append((file_path, temp, final))
        except Exception as e:
            print(...)
            continue
  \<close>
\<close>

fun phase1 :: "platform \<Rightarrow> (nat \<Rightarrow> real) \<Rightarrow> nat \<Rightarrow> rename list \<Rightarrow> directory \<Rightarrow> string set
                 \<Rightarrow> directory \<times> string set \<times> rename list" where
  "phase1 pf clock k [] dir tf = (dir, tf, [])"
| "phase1 pf clock k ((file_path, temp, final) # rest) dir tf =
     (case rename pf (clock k) dir file_path temp of
        Some dir' \<Rightarrow>
          (let (dir'', tf'', successful_phase1) = phase1 pf clock (k + 1) rest dir' (insert temp tf)
           in (dir'', tf'', (file_path, temp, final) # successful_phase1))
      | None \<Rightarrow> phase1 pf clock (k + 1) rest dir (insert temp tf))"

text \<open>
  Phase 2. \<open>temp_path.exists()\<close> is called outside the \<open>try\<close>, so that an error it raises
  leaves the loop. (The \<open>getctime\<close> of the success message is read after the counter has
  been incremented and an error in it is caught by the same handler, so it changes
  nothing.)
  \<^verbatim>\<open>
    successful_renames = 0
    for file_path, temp, final in successful_phase1:
        temp_path = file_path.parent / temp
        if not temp_path.exists(): continue
        final_path = file_path.parent / final
        try:
            temp_path.rename(final_path)
            self.temp_files.discard(temp)
            successful_renames += 1
            ...
        except Exception as e:
            print(...)
  \<close>
\<close>

fun phase2 :: "platform \<Rightarrow> (nat \<Rightarrow> real) \<Rightarrow> nat \<Rightarrow> rename list \<Rightarrow> directory \<Rightarrow> string set \<Rightarrow> nat
                 \<Rightarrow> (directory \<times> string set \<times> nat) attempt" where
  "phase2 pf clock k [] dir tf successful_renames = Completed (dir, tf, successful_renames)"
| "phase2 pf clock k ((file_path, temp, final) # rest) dir tf successful_renames =
     (case path_exists dir temp of
        None \<Rightarrow> Raised (dir, tf, successful_renames)
      | Some False \<Rightarrow> phase2 pf clock (k + 1) rest dir tf successful_renames
      | Some True \<Rightarrow>
          (case rename pf (clock k) dir temp final of
             Some dir' \<Rightarrow>
               phase2 pf clock (k + 1) rest dir' (tf - {temp}) (successful_renames + 1)
           | None \<Rightarrow> phase2 pf clock (k + 1) rest dir tf successful_renames))"

text \<open>
  \<open>reorganize_all_files\<close> of the corrected watcher: resolve, sort, plan, apply. An
  exception outside the two \<open>try\<close> blocks of the loops (the sort key raising, \<open>exists()\<close>
  raising in phase 2) is caught by the outer handler, which prints it. The closing check
  of the numbering only prints and is left out.
\<close>

definition plan_of :: "handler \<Rightarrow> directory \<Rightarrow> string list option \<Rightarrow> rename list option" where
  "plan_of h dir listdir =
     map_option (compute_renames (prefix h))
       (sort_by_ctime dir (get_real_image_files dir listdir))"

definition reorganize_all_files ::
  "platform \<Rightarrow> (nat \<Rightarrow> real) \<Rightarrow> handler \<Rightarrow> directory \<Rightarrow> string list option
     \<Rightarrow> handler \<times> directory \<times> outcome" where
  "reorganize_all_files pf clock h dir listdir =
     (let existing_files = get_real_image_files dir listdir
      in if existing_files = [] then (h, dir, NoFiles)
         else (case sort_by_ctime dir existing_files of
                 None \<Rightarrow> (h, dir, Failed)
               | Some sorted_files \<Rightarrow>
                   (let renames = compute_renames (prefix h) sorted_files
                    in if renames = [] then (h, dir, AlreadyOrdered)
                       else (let (dir1, tf1, successful_phase1) =
                                    phase1 pf clock 0 renames dir (temp_files h)
                             in (case phase2 pf clock (length renames) successful_phase1 dir1 tf1 0 of
                                   Raised (dir2, tf2, successful_renames) \<Rightarrow>
                                     (h\<lparr>temp_files := tf2\<rparr>, dir2, Failed)
                                 | Completed (dir2, tf2, successful_renames) \<Rightarrow>
                                     (h\<lparr>temp_files := tf2\<rparr>, dir2,
                                      Reorganized (length renames) successful_renames))))))"

subsection \<open>The original watcher\<close>

text \<open>
  Neither loop of the original catches anything: the first rename that raises leaves the
  loop and the function through the outer handler.
  \<^verbatim>\<open>
    for file_path, temp_name, final_name in temp_names:
        temp_path = file_path.parent / temp_name
        self.temp_files.add(temp_name)
        file_path.rename(temp_path)

    renamed_count = 0
    for file_path, temp_name, final_name in temp_names:
        temp_path = file_path.parent / temp_name
        final_path = file_path.parent / final_name
        temp_path.rename(final_path)
        self.temp_files.discard(temp_name)
        creation_time = datetime.fromtimestamp(self.get_creation_time(final_path))
        ...
        renamed_count += 1
  \<close>
\<close>

fun phase1_original :: "platform \<Rightarrow> (nat \<Rightarrow> real) \<Rightarrow> nat \<Rightarrow> rename list \<Rightarrow> directory
                          \<Rightarrow> string set \<Rightarrow> (directory \<times> string set) attempt" where
  "phase1_original pf clock k [] dir tf = Completed (dir, tf)"
| "phase1_original pf clock k ((file_path, temp_name, final_name) # rest) dir tf =
     (case rename pf (clock k) dir file_path temp_name of
        None \<Rightarrow> Raised (dir, insert temp_name tf)
      | Some dir' \<Rightarrow> phase1_original pf clock (k + 1) rest dir' (insert temp_name tf))"

fun phase2_original :: "platform \<Rightarrow> (nat \<Rightarrow> real) \<Rightarrow> nat \<Rightarrow> rename list \<Rightarrow> directory
                          \<Rightarrow> string set \<Rightarrow> nat \<Rightarrow> (directory \<times> string set \<times> nat) attempt" where
  "phase2_original pf clock k [] dir tf renamed_count = Completed (dir, tf, renamed_count)"
| "phase2_original pf clock k ((file_path, temp_name, final_name) # rest) dir tf renamed_count =
     (case rename pf (clock k) dir temp_name final_name of
        None \<Rightarrow> Raised (dir, tf, renamed_count)
      | Some dir' \<Rightarrow>
          (case getctime dir' final_name of
             None \<Rightarrow> Raised (dir', tf - {temp_name}, renamed_count)
           | Some creation_time \<Rightarrow>
               phase2_original pf clock (k + 1) rest dir' (tf - {temp_name}) (renamed_count + 1)))"

definition plan_of_original ::
  "platform \<Rightarrow> handler \<Rightarrow> directory \<Rightarrow> string list option \<Rightarrow> rename list option" where
  "plan_of_original pf h dir listdir =
     map_option (\<lambda>all_files. fst (compute_temp_names (prefix h) all_files))
       (sort_by_ctime dir (glob_image_files pf listdir))"

definition reorganize_all_files_original ::
  "platform \<Rightarrow> (nat \<Rightarrow> real) \<Rightarrow> handler \<Rightarrow> directory \<Rightarrow> string list option
     \<Rightarrow> handler \<times> directory \<times> outcome" where
  "reorganize_all_files_original pf clock h dir listdir =
     (let image_files = glob_image_files pf listdir
      in if image_files = [] then (h, dir, NoFiles)
         else (case sort_by_ctime dir image_files of
                 None \<Rightarrow> (h, dir, Failed)
               | Some all_files \<Rightarrow>
                   (let (temp_names, files_to_rename) = compute_temp_names (prefix h) all_files
                    in if files_to_rename = [] then (h, dir, AlreadyOrdered)
                       else (case phase1_original pf clock 0 temp_names dir (temp_files h) of
                               Raised (dir1, tf1) \<Rightarrow> (h\<lparr>temp_files := tf1\<rparr>, dir1, Failed)
                             | Completed (dir1, tf1) \<Rightarrow>
                                 (case phase2_original pf clock (length temp_names) temp_names dir1 tf1 0 of
                                    Raised (dir2, tf2, renamed_count) \<Rightarrow>
                                      (h\<lparr>temp_files := tf2\<rparr>, dir2, Failed)
                                  | Completed (dir2, tf2, renamed_count) \<Rightarrow>
                                      (h\<lparr>temp_files := tf2\<rparr>, dir2,
                                       Reorganized (length files_to_rename) renamed_count))))))"

subsection \<open>Triggers\<close>

text \<open>
  \<open>is_already_renamed\<close> matches the name against
  \<open>^{prefix}_\d{2,}\.(png|jpg|jpeg)$\<close> with \<open>re.IGNORECASE\<close>. The prefix is pasted into
  the pattern as it is, and \<open>\d\<close> and the comparison without case follow Unicode. The
  model gives the result of the match where it is the one of a literal comparison on
  ASCII: for a prefix of ASCII letters, digits, \<open>_\<close>, \<open>-\<close> and spaces (none of which means
  anything to \<open>re\<close>) and a file name of ASCII characters. Everywhere else it gives no
  verdict (\<open>None\<close>). \<open>$\<close> also matches before a final newline.
\<close>

definition plain_char :: "char \<Rightarrow> bool" where
  "plain_char c =
     (let n = (of_char c :: nat)
      in (48 \<le> n \<and> n \<le> 57) \<or> (65 \<le> n \<and> n \<le> 90) \<or> (97 \<le> n \<and> n \<le> 122)
           \<or> c = CHR ''_'' \<or> c = CHR ''-'' \<or> c = CHR '' '')"

definition ascii_char :: "char \<Rightarrow> bool" where
  "ascii_char c = ((of_char c :: nat) < 128)"

definition is_already_renamed :: "string \<Rightarrow> string \<Rightarrow> bool option" where
  "is_already_renamed pre filename =
     (if \<not> (list_all plain_char pre \<and> list_all ascii_char filename) then None
      else Some
        (let p = lower pre @ ''_''; s = lower filename
         in startswith s p \<and>
            (let rest = drop (length p) s;
                 ds = takeWhile is_digit rest;
                 tail = dropWhile is_digit rest
             in 2 \<le> length ds \<and>
                tail \<in> set [''.png'', ''.jpg'', ''.jpeg'',
                            ''.png'' @ [CHR 0x0A], ''.jpg'' @ [CHR 0x0A], ''.jpeg'' @ [CHR 0x0A]])))"

text \<open>\<open>_cleanup_cache\<close>, with \<open>now\<close> the value of \<open>time.time()\<close>.\<close>

definition cleanup_cache :: "handler \<Rightarrow> real \<Rightarrow> handler" where
  "cleanup_cache h now =
     (let cutoff = now - debounce_delay h * 5
      in h\<lparr>last_event_time :=
             (\<lambda>k. case last_event_time h k of
                     None \<Rightarrow> None
                   | Some v \<Rightarrow> if v > cutoff then Some v else None)\<rparr>)"

text \<open>
  \<open>process_new_file\<close>, the worker started for an accepted event. It is the one place
  that reads and sets \<open>processing\<close>.
  \<^verbatim>\<open>
    try:
        if not file_path.exists():
            time.sleep(1.0)
            if not file_path.exists(): return
        if self.is_already_renamed(file_path.name): return
        with self.processing_lock:
            if self.processing: return
            self.processing = True
        try:
            if not self._wait_file_stable(file_path): return
            self.reorganize_all_files(file_path.parent)
            self._cleanup_cache()
        finally:
            with self.processing_lock:
                self.processing = False
    except Exception as e:
        print(...)
        with self.processing_lock:
            self.processing = False
  \<close>
  The directory is the same before and after the sleep. \<open>exists()\<close> raising is caught by
  the outer handler (\<open>Crashed\<close>), which resets \<open>processing\<close>. The result is \<open>None\<close> when
  the model has no verdict: for the match of the name, or from the trace of the probe.
\<close>

datatype trigger_result = NotFound | AlreadyRenamed | Busy | Unstable | Crashed | Ran outcome

definition process_new_file ::
  "platform \<Rightarrow> (nat \<Rightarrow> real) \<Rightarrow> handler \<Rightarrow> directory \<Rightarrow> string list option \<Rightarrow> string
     \<Rightarrow> (real \<times> probe) list \<Rightarrow> real \<Rightarrow> (handler \<times> directory \<times> trigger_result) option" where
  "process_new_file pf clock h dir listdir file_path trace now =
     (case path_exists dir file_path of
        None \<Rightarrow> Some (h\<lparr>processing := False\<rparr>, dir, Crashed)
      | Some False \<Rightarrow> Some (h, dir, NotFound)
      | Some True \<Rightarrow>
          (case is_already_renamed (prefix h) file_path of
             None \<Rightarrow> None
           | Some True \<Rightarrow> Some (h, dir, AlreadyRenamed)
           | Some False \<Rightarrow>
               if processing h then Some (h, dir, Busy)
               else (let h1 = h\<lparr>processing := True\<rparr>
                     in (case wait_file_stable trace of
                           None \<Rightarrow> None
                         | Some False \<Rightarrow> Some (h1\<lparr>processing := False\<rparr>, dir, Unstable)
                         | Some True \<Rightarrow>
                             (let (h2, dir2, result) = reorganize_all_files pf clock h1 dir listdir;
                                  h3 = cleanup_cache h2 now
                              in Some (h3\<lparr>processing := False\<rparr>, dir2, Ran result))))))"

text \<open>
  Choice 4 of \<open>run_interactive_menu\<close>, the manual reorganisation:
  \<^verbatim>\<open>
    elif choice == "4":
        try:
            event_handler.reorganize_all_files(Path(directory_path))
  \<close>
\<close>

definition menu_reorganize ::
  "platform \<Rightarrow> (nat \<Rightarrow> real) \<Rightarrow> handler \<Rightarrow> directory \<Rightarrow> string list option
     \<Rightarrow> handler \<times> directory \<times> outcome" where
  "menu_reorganize pf clock event_handler dir listdir =
     reorganize_all_files pf clock event_handler dir listdir"

definition menu_reorganize_original ::
  "platform \<Rightarrow> (nat \<Rightarrow> real) \<Rightarrow> handler \<Rightarrow> directory \<Rightarrow> string list option
     \<Rightarrow> handler \<times> directory \<times> outcome" where
  "menu_reorganize_original pf clock event_handler dir listdir =
     reorganize_all_files_original pf clock event_handler dir listdir"

section \<open>Auxiliary notions\<close>

text \<open>The number written by a string of decimal digits (the inverse of \<open>str\<close>).\<close>

definition nat_of_digits :: "string \<Rightarrow> nat" where
  "nat_of_digits s = foldl (\<lambda>a c. 10 * a + (of_char c - 48)) 0 s"

text \<open>How often the capital letter of the \<open>TEMP_\<close> marker occurs in a name.\<close>

definition count_T :: "string \<Rightarrow> nat" where
  "count_T s = length (filter (\<lambda>c. c = CHR ''T'') s)"

text \<open>
  The wire format of a final name, \<open>^<prefix>_\d{2,}\.(png|jpg|jpeg)$\<close>, with the prefix
  read literally and the extension in lower case.
\<close>

definition wire_format :: "string \<Rightarrow> string \<Rightarrow> bool" where
  "wire_format pre name =
     (startswith name (pre @ ''_'') \<and>
      (let rest = drop (length pre + 1) name;
           ds = takeWhile is_digit rest;
           tail = dropWhile is_digit rest
       in 2 \<le> length ds \<and> tail \<in> set [''.png'', ''.jpg'', ''.jpeg'']))"

text \<open>An ordinary file of the given size and creation time, for the examples.\<close>

definition regular_file :: "int \<Rightarrow> real \<Rightarrow> entry" where
  "regular_file nbytes created =
     \<lparr>kind = File, is_file = Some True, exists = Some True,
      stat = Some \<lparr>st_size = nbytes, st_ctime = created\<rparr>,
      readable = True, renamable = True\<rparr>"

text \<open>\<open>ImageRenameHandler.__init__\<close>.\<close>

definition new_handler :: "string \<Rightarrow> handler" where
  "new_handler pre =
     \<lparr>prefix = pre, processing = False, last_event_time = Map.empty,
      debounce_delay = 1.5, temp_files = {}\<rparr>"







text \<open>
  An item that the resolver's loop appends, and the two halves of its test: the name
  ends with an image extension, and the entry is a readable, non-empty regular file.
\<close>

definition real_image_file :: "directory \<Rightarrow> string \<Rightarrow> bool" where
  "real_image_file dir item = (check_item dir item = Some True)"

definition has_image_extension :: "string \<Rightarrow> bool" where
  "has_image_extension item =
     (endswith (lower item) ''.png'' \<or> endswith (lower item) ''.jpg''
        \<or> endswith (lower item) ''.jpeg'')"

definition accessible :: "entry \<Rightarrow> bool" where
  "accessible e =
     (is_file e = Some True \<and> exists e = Some True \<and> (case stat e of None \<Rightarrow> False | Some s \<Rightarrow> 0 < st_size s)
        \<and> readable e)"

text \<open>The clock of the examples: the pass begins at time 100 and each entry takes a second.\<close>

definition example_clock :: "nat \<Rightarrow> real" where
  "example_clock k = 100 + real k"


section \<open>Properties of names and plans\<close>

lemma of_char_lower_char:
  "of_char (lower_char c) = (if (65::nat) \<le> of_char c \<and> of_char c \<le> (90::nat) then of_char c + 32 else (of_char c :: nat))"
  by (simp add: lower_char_def)

lemma lower_char_not_T: "lower_char c \<noteq> CHR ''T''"
proof
  assume "lower_char c = CHR ''T''"
  then have "(of_char (lower_char c) :: nat) = of_char CHR ''T''" by simp
  then show False by (simp add: of_char_lower_char split: if_splits)
qed

lemma lower_char_dot: "lower_char c = CHR ''.'' \<longleftrightarrow> c = CHR ''.''"
proof
  assume "lower_char c = CHR ''.''"
  then have "(of_char (lower_char c) :: nat) = of_char CHR ''.''" by simp
  then have "(of_char c :: nat) = of_char CHR ''.''" by (simp add: of_char_lower_char split: if_splits)
  then show "c = CHR ''.''" by (simp only: of_char_eq_iff)
next
  assume "c = CHR ''.''" then show "lower_char c = CHR ''.''" by (simp add: lower_char_def)
qed


lemma is_digit_digit_char: "d < 10 \<Longrightarrow> is_digit (digit_char d)"
  by (simp add: is_digit_def digit_char_def)

lemma str_nat_digits: "c \<in> set (str_nat n) \<Longrightarrow> is_digit c"
proof (induction n arbitrary: c rule: str_nat.induct)
  case (1 n)
  show ?case
  proof (cases "n < 10")
    case True
    with "1.prems" show ?thesis by (simp add: str_nat.simps [of n] is_digit_digit_char)
  next
    case False
    with "1.prems" "1.IH" show ?thesis
      by (auto simp add: str_nat.simps [of n] is_digit_digit_char)
  qed
qed

lemma nat_of_digits_snoc: "nat_of_digits (s @ [c]) = 10 * nat_of_digits s + (of_char c - 48)"
  by (simp add: nat_of_digits_def)

lemma of_char_digit_char: "d < 10 \<Longrightarrow> (of_char (digit_char d) :: nat) = 48 + d"
  by (simp add: digit_char_def)

lemma nat_of_digits_str_nat: "nat_of_digits (str_nat n) = n"
proof (induction n rule: str_nat.induct)
  case (1 n)
  show ?case
  proof (cases "n < 10")
    case True
    then show ?thesis by (simp add: str_nat.simps [of n] nat_of_digits_def of_char_digit_char)
  next
    case False
    with "1.IH" show ?thesis
      by (simp add: str_nat.simps [of n] nat_of_digits_snoc of_char_digit_char)
  qed
qed

lemma nat_of_digits_zeros: "nat_of_digits (replicate k CHR ''0'' @ s) = nat_of_digits s"
proof -
  have "foldl (\<lambda>a c. 10 * a + (of_char c - 48)) (0::nat) (replicate k CHR ''0'') = 0"
    by (induction k) simp_all
  then show ?thesis by (simp add: nat_of_digits_def)
qed

lemma nat_of_digits_fmt02d: "nat_of_digits (fmt02d n) = n"
  by (simp add: fmt02d_def Let_def nat_of_digits_zeros nat_of_digits_str_nat)

lemma fmt02d_inj: "fmt02d a = fmt02d b \<Longrightarrow> a = b"
  by (metis nat_of_digits_fmt02d)

lemma fmt02d_digits: "c \<in> set (fmt02d n) \<Longrightarrow> is_digit c"
  by (auto simp add: fmt02d_def Let_def is_digit_def dest: str_nat_digits)

lemma str_nat_nonempty: "str_nat n \<noteq> []"
  by (subst str_nat.simps) simp

lemma fmt02d_length: "2 \<le> length (fmt02d n)"
  by (simp add: fmt02d_def Let_def)

lemma count_T_append: "count_T (a @ b) = count_T a + count_T b"
  by (simp add: count_T_def)

lemma count_T_Nil: "count_T [] = 0"
  by (simp add: count_T_def)

lemma count_T_Cons: "count_T (c # s) = (if c = CHR ''T'' then 1 else 0) + count_T s"
  by (simp add: count_T_def)

lemma count_T_lower: "count_T (lower s) = 0"
  by (simp add: count_T_def lower_def filter_empty_conv lower_char_not_T)

lemma is_digit_not_T: "is_digit c \<Longrightarrow> c \<noteq> CHR ''T''"
  by (auto simp add: is_digit_def)

lemma count_T_fmt02d: "count_T (fmt02d n) = 0"
  using fmt02d_digits is_digit_not_T by (fastforce simp add: count_T_def filter_empty_conv)

lemma count_T_temp_for: "count_T (temp_for p i f) = Suc (count_T p)"
  by (simp add: temp_for_def count_T_append count_T_lower count_T_fmt02d count_T_Cons count_T_Nil)

lemma count_T_expected_for: "count_T (expected_for p i f) = count_T p"
  by (simp add: expected_for_def count_T_append count_T_lower count_T_fmt02d count_T_Cons count_T_Nil)

lemma temp_for_neq_expected_for: "temp_for p i f \<noteq> expected_for p j g"
  by (metis count_T_temp_for count_T_expected_for n_not_Suc_n)

lemma not_digit_underscore: "\<not> is_digit CHR ''_''"
  by (simp add: is_digit_def)

lemma not_digit_dot: "\<not> is_digit CHR ''.''"
  by (simp add: is_digit_def)

lemma takeWhile_digits_fmt02d:
  "\<not> is_digit c \<Longrightarrow> takeWhile is_digit (fmt02d n @ c # rest) = fmt02d n"
  by (subst takeWhile_append2) (auto simp add: fmt02d_digits)

lemma takeWhile_digits_fmt02d_end: "takeWhile is_digit (fmt02d n) = fmt02d n"
  by (simp add: fmt02d_digits)

lemma temp_for_index: "takeWhile is_digit (drop 5 (temp_for p i f)) = fmt02d (i + 1)"
  by (simp add: temp_for_def takeWhile_digits_fmt02d not_digit_underscore)

lemma temp_for_inj: "temp_for p i f = temp_for p j g \<Longrightarrow> i = j"
proof -
  assume "temp_for p i f = temp_for p j g"
  then have "fmt02d (i + 1) = fmt02d (j + 1)" by (metis temp_for_index)
  then show "i = j" using fmt02d_inj by fastforce
qed

lemma rfind_lower: "rfind (lower s) CHR ''.'' = rfind s CHR ''.''"
proof -
  have a: "(CHR ''.'' \<in> set (lower s)) = (CHR ''.'' \<in> set s)"
    unfolding lower_def set_map image_iff by (metis lower_char_dot)
  have "takeWhile (\<lambda>x. x \<noteq> CHR ''.'') (rev (lower s))
          = map lower_char (takeWhile ((\<lambda>x. x \<noteq> CHR ''.'') \<circ> lower_char) (rev s))"
    by (simp add: lower_def rev_map takeWhile_map)
  moreover have "((\<lambda>x. x \<noteq> CHR ''.'') \<circ> lower_char) = (\<lambda>x. x \<noteq> CHR ''.'')"
    by (auto simp add: fun_eq_iff lower_char_dot)
  ultimately have "length (takeWhile (\<lambda>x. x \<noteq> CHR ''.'') (rev (lower s)))
          = length (takeWhile (\<lambda>x. x \<noteq> CHR ''.'') (rev s))" by simp
  with a show ?thesis by (simp add: rfind_def) (simp add: lower_def)
qed

lemma path_suffix_lower: "path_suffix (lower s) = lower (path_suffix s)"
  unfolding path_suffix_def rfind_lower Let_def by (simp add: lower_def drop_map)


lemma rfind_split:
  "CHR ''.'' \<notin> set e \<Longrightarrow> rfind (s @ CHR ''.'' # e) CHR ''.'' = int (length s)"
proof -
  assume a: "CHR ''.'' \<notin> set e"
  have "takeWhile (\<lambda>x. x \<noteq> CHR ''.'') (rev e @ CHR ''.'' # rev s) = rev e"
    using a by (subst takeWhile_append2) auto
  then show ?thesis by (simp add: rfind_def)
qed

lemma path_suffix_split:
  "CHR ''.'' \<notin> set e \<Longrightarrow> e \<noteq> [] \<Longrightarrow> s \<noteq> [] \<Longrightarrow> path_suffix (s @ CHR ''.'' # e) = CHR ''.'' # e"
  by (simp add: path_suffix_def rfind_split Let_def)

lemma path_suffix_bare:
  "CHR ''.'' \<notin> set e \<Longrightarrow> path_suffix (CHR ''.'' # e) = []"
  using rfind_split [of e "[]"] by (simp add: path_suffix_def Let_def)

lemma path_suffix_shape: "path_suffix s = [] \<or> (\<exists>e. path_suffix s = CHR ''.'' # e \<and> CHR ''.'' \<notin> set e)"
proof (cases "CHR ''.'' \<in> set s")
  case False
  then show ?thesis by (simp add: path_suffix_def rfind_def)
next
  case True
  then have "CHR ''.'' \<in> set (rev s)" by simp
  then obtain a b where ab: "rev s = a @ CHR ''.'' # b" "CHR ''.'' \<notin> set a"
    by (meson split_list_first)
  then have s: "s = rev b @ CHR ''.'' # rev a" by (metis rev_append rev.simps(2) rev_rev_ident append.assoc append_Cons append_Nil)
  have "rfind s CHR ''.'' = int (length b)" using ab(2) by (simp add: s rfind_split)
  then show ?thesis using ab(2) by (auto simp add: path_suffix_def Let_def s)
qed

lemma lower_suffix_no_digit_head:
  "lower (path_suffix f) = [] \<or> (\<exists>e. lower (path_suffix f) = CHR ''.'' # e)"
  using path_suffix_shape [of f] by (auto simp add: lower_def lower_char_dot)

lemma expected_for_index:
  "takeWhile is_digit (drop (Suc (length p)) (expected_for p i f)) = fmt02d (i + 1)"
  using lower_suffix_no_digit_head [of f]
  by (auto simp add: expected_for_def takeWhile_digits_fmt02d not_digit_dot takeWhile_digits_fmt02d_end)


lemma collect_renames_eq:
  "collect_renames p xs =
     map (\<lambda>(i, f). (f, temp_for p i f, expected_for p i f))
         (filter (\<lambda>(i, f). f \<noteq> expected_for p i f) xs)"
  by (induction xs) (auto simp add: Let_def temp_for_def expected_for_def)

lemma collect_temp_names_eq:
  "collect_temp_names p xs = (collect_renames p xs, map fst (collect_renames p xs))"
  by (induction xs) (auto simp add: Let_def split: prod.splits)

lemma compute_temp_names_eq:
  "compute_temp_names p files = (compute_renames p files, map fst (compute_renames p files))"
  by (simp add: compute_temp_names_def compute_renames_def collect_temp_names_eq)

lemma compute_renames_eq:
  "compute_renames p files =
     map (\<lambda>(i, f). (f, temp_for p i f, expected_for p i f))
         (filter (\<lambda>(i, f). f \<noteq> expected_for p i f) (enumerate 0 files))"
  by (simp add: compute_renames_def collect_renames_eq)

lemma enumerate_same_index:
  "(i, f) \<in> set (enumerate n xs) \<Longrightarrow> (i, g) \<in> set (enumerate n xs) \<Longrightarrow> f = g"
  by (simp add: in_set_enumerate_eq)

lemma temps_of_plan:
  "map (fst \<circ> snd) (compute_renames p files) =
     map (\<lambda>(i, f). temp_for p i f) (filter (\<lambda>(i, f). f \<noteq> expected_for p i f) (enumerate 0 files))"
  by (simp add: compute_renames_eq comp_def case_prod_unfold)

lemma finals_of_plan:
  "map (snd \<circ> snd) (compute_renames p files) =
     map (\<lambda>(i, f). expected_for p i f) (filter (\<lambda>(i, f). f \<noteq> expected_for p i f) (enumerate 0 files))"
  by (simp add: compute_renames_eq comp_def case_prod_unfold)

lemma sources_of_plan:
  "map fst (compute_renames p files) =
     map snd (filter (\<lambda>(i, f). f \<noteq> expected_for p i f) (enumerate 0 files))"
  by (simp add: compute_renames_eq comp_def case_prod_unfold)

lemma distinct_temps: "distinct (map (fst \<circ> snd) (compute_renames p files))"
proof -
  let ?xs = "filter (\<lambda>(i, f). f \<noteq> expected_for p i f) (enumerate 0 files)"
  have d: "distinct ?xs" by (simp add: distinct_enumerate)
  have "inj_on (\<lambda>(i, f). temp_for p i f) (set ?xs)"
  proof (rule inj_onI)
    fix x y assume x: "x \<in> set ?xs" and y: "y \<in> set ?xs"
      and e: "(case x of (i, f) \<Rightarrow> temp_for p i f) = (case y of (i, f) \<Rightarrow> temp_for p i f)"
    obtain i f where xi: "x = (i, f)" by (cases x)
    obtain j g where yj: "y = (j, g)" by (cases y)
    from e xi yj have ij: "i = j" by (auto dest: temp_for_inj)
    from x xi have m1: "(i, f) \<in> set (enumerate 0 files)" by simp
    from y yj ij have m2: "(i, g) \<in> set (enumerate 0 files)" by simp
    have "f = g" by (rule enumerate_same_index [OF m1 m2])
    with ij xi yj show "x = y" by simp
  qed
  with d show ?thesis by (simp only: temps_of_plan distinct_map)
qed


lemma temps_finals_disjoint:
  "set (map (fst \<circ> snd) (compute_renames p files)) \<inter> set (map (snd \<circ> snd) (compute_renames p files)) = {}"
proof -
  have "x \<noteq> y" if "x \<in> set (map (fst \<circ> snd) (compute_renames p files))"
    and "y \<in> set (map (snd \<circ> snd) (compute_renames p files))" for x y
  proof -
    from that(1) obtain i f where "x = temp_for p i f"
      unfolding temps_of_plan by auto
    moreover from that(2) obtain j g where "y = expected_for p j g"
      unfolding finals_of_plan by auto
    ultimately show ?thesis by (simp add: temp_for_neq_expected_for)
  qed
  then show ?thesis by blast
qed

lemma stable_loop_timeout:
  "stable_loop T pre ls sc = None \<Longrightarrow> T \<le> t \<Longrightarrow>
   stable_loop T (pre @ (t, p) # rest) ls sc = Some (case p of Size n \<Rightarrow> 0 < n | _ \<Rightarrow> False)"
proof (induction T pre ls sc rule: stable_loop.induct)
  case (1 timeout last_size stable_count)
  then show ?case by (cases p) simp_all
next
  case (2 timeout elapsed q rest' last_size stable_count)
  from "2.prems"(1) have within: "elapsed < timeout"
    by (cases q) (simp_all split: if_split_asm)
  from "2.prems"(1) within obtain n where q: "q = Size n"
    by (cases q) simp_all
  show ?case
  proof (cases "0 < n")
    case False
    with "2.prems" within q "2.IH"(3) [of n] show ?thesis by simp
  next
    case pos: True
    show ?thesis
    proof (cases "n = last_size")
      case False
      with "2.prems" within q pos "2.IH"(2) [of n] show ?thesis by simp
    next
      case True
      with "2.prems"(1) within q pos have "\<not> 2 \<le> stable_count + 1"
        by (simp split: if_split_asm)
      with "2.prems" within q pos True "2.IH"(1) [of n] show ?thesis by simp
    qed
  qed
qed

lemma endswith_split: "endswith s e \<Longrightarrow> \<exists>a. s = a @ e"
  unfolding endswith_def by (metis append_take_drop_id)

lemma lower_suffix_of_image:
  assumes "endswith (lower f) (CHR ''.'' # e)" and "lower f \<noteq> CHR ''.'' # e"
    and "CHR ''.'' \<notin> set e" and "e \<noteq> []"
  shows "lower (path_suffix f) = CHR ''.'' # e"
proof -
  from assms(1) obtain a where a: "lower f = a @ CHR ''.'' # e" using endswith_split by blast
  with assms(2) have "a \<noteq> []" by auto
  with a assms(3,4) have "path_suffix (lower f) = CHR ''.'' # e"
    by (simp add: path_suffix_split)
  then show ?thesis by (simp add: path_suffix_lower)
qed

lemma image_suffix_cases:
  assumes "endswith (lower f) ''.png'' \<or> endswith (lower f) ''.jpg'' \<or> endswith (lower f) ''.jpeg''"
    and "lower f \<notin> set [''.png'', ''.jpg'', ''.jpeg'']"
  shows "lower (path_suffix f) \<in> set [''.png'', ''.jpg'', ''.jpeg'']"
  using assms lower_suffix_of_image [of f "''png''"] lower_suffix_of_image [of f "''jpg''"]
    lower_suffix_of_image [of f "''jpeg''"]
  by auto

lemma wire_format_expected:
  assumes "ext \<in> set [''.png'', ''.jpg'', ''.jpeg'']"
  shows "wire_format p (p @ ''_'' @ fmt02d n @ ext)"
proof -
  obtain e where e: "ext = CHR ''.'' # e" using assms by auto
  have t: "takeWhile is_digit (fmt02d n @ ext) = fmt02d n"
    unfolding e by (rule takeWhile_digits_fmt02d) (rule not_digit_dot)
  have "dropWhile is_digit (fmt02d n @ ext) = dropWhile is_digit ext"
    by (rule dropWhile_append2) (rule fmt02d_digits)
  then have d: "dropWhile is_digit (fmt02d n @ ext) = ext"
    by (simp add: e not_digit_dot)
  show ?thesis
    using assms fmt02d_length [of n] by (simp add: wire_format_def startswith_def Let_def t d)
qed

lemma final_name_has_wire_format:
  assumes "endswith (lower f) ''.png'' \<or> endswith (lower f) ''.jpg'' \<or> endswith (lower f) ''.jpeg''"
    and "lower f \<notin> set [''.png'', ''.jpg'', ''.jpeg'']"
  shows "wire_format p (expected_for p i f) \<and>
         takeWhile is_digit (drop (Suc (length p)) (expected_for p i f)) = fmt02d (i + 1) \<and>
         2 \<le> length (fmt02d (i + 1)) \<and> nat_of_digits (fmt02d (i + 1)) = i + 1"
  using image_suffix_cases [OF assms] wire_format_expected [of "lower (path_suffix f)" p "i + 1"]
    expected_for_index [of p i f] fmt02d_length [of "i + 1"] nat_of_digits_fmt02d [of "i + 1"]
  by (simp add: expected_for_def)

lemma those_Some: "those xs = Some ys \<Longrightarrow> xs = map Some ys"
  by (induction xs arbitrary: ys) (auto split: option.splits)

lemma those_map_Some: "those (map Some ys) = Some ys"
  by (induction ys) auto

lemma sort_by_ctime_Some:
  assumes "sort_by_ctime dir files = Some out"
  obtains ts where "map (getctime dir) files = map Some ts"
    and "out = map snd (sort_key fst (zip ts files))"
proof -
  from assms obtain keyed where k: "those (map (\<lambda>f. map_option (\<lambda>t. (t, f)) (getctime dir f)) files) = Some keyed"
    and out: "out = map snd (sort_key fst keyed)"
    by (auto simp add: sort_by_ctime_def)
  from those_Some [OF k] have m: "map (\<lambda>f. map_option (\<lambda>t. (t, f)) (getctime dir f)) files = map Some keyed" .
  then have len: "length keyed = length files" by (metis length_map)
  have "\<forall>i<length files. getctime dir (files ! i) = Some (fst (keyed ! i)) \<and> snd (keyed ! i) = files ! i"
  proof (intro allI impI)
    fix i assume i: "i < length files"
    from m have "map (\<lambda>f. map_option (\<lambda>t. (t, f)) (getctime dir f)) files ! i = map Some keyed ! i" by simp
    with i len have "map_option (\<lambda>t. (t, files ! i)) (getctime dir (files ! i)) = Some (keyed ! i)" by simp
    then show "getctime dir (files ! i) = Some (fst (keyed ! i)) \<and> snd (keyed ! i) = files ! i"
      by (cases "getctime dir (files ! i)") (auto simp add: fst_def snd_def split: prod.splits)
  qed
  then have a: "map (getctime dir) files = map Some (map fst keyed)" and b: "map snd keyed = files"
    using len by (auto simp add: list_eq_iff_nth_eq)
  have "keyed = zip (map fst keyed) files" using b by (metis zip_map_fst_snd)
  with out a that show ?thesis by metis
qed

lemma sort_by_ctime_keys:
  assumes "map (getctime dir) files = map Some ts"
  shows "sort_by_ctime dir files = Some (map snd (sort_key fst (zip ts files)))"
proof -
  have len: "length ts = length files" using assms by (metis length_map)
  have "map (\<lambda>f. map_option (\<lambda>t. (t, f)) (getctime dir f)) files = map Some (zip ts files)"
  proof (rule nth_equalityI)
    show "length (map (\<lambda>f. map_option (\<lambda>t. (t, f)) (getctime dir f)) files) = length (map Some (zip ts files))"
      using len by simp
  next
    fix i assume "i < length (map (\<lambda>f. map_option (\<lambda>t. (t, f)) (getctime dir f)) files)"
    then have i: "i < length files" by simp
    from assms have "map (getctime dir) files ! i = map Some ts ! i" by simp
    with i len have "getctime dir (files ! i) = Some (ts ! i)" by simp
    with i len show "map (\<lambda>f. map_option (\<lambda>t. (t, f)) (getctime dir f)) files ! i = map Some (zip ts files) ! i"
      by simp
  qed
  then show ?thesis by (simp add: sort_by_ctime_def those_map_Some)
qed

lemma zip_keys:
  assumes "map (getctime dir) files = map Some ts" and "(t, f) \<in> set (zip ts files)"
  shows "getctime dir f = Some t"
proof -
  from assms(2) obtain i where i: "i < length ts" "i < length files" "ts ! i = t" "files ! i = f"
    by (auto simp add: set_zip)
  from assms(1) have "map (getctime dir) files ! i = map Some ts ! i" by simp
  with i show ?thesis by simp
qed

lemma sort_by_ctime_props:
  assumes "sort_by_ctime dir files = Some out"
  shows "mset out = mset files"
    and "\<exists>ks. map (getctime dir) out = map Some ks \<and> sorted ks"
    and "filter (\<lambda>f. getctime dir f = Some t) out = filter (\<lambda>f. getctime dir f = Some t) files"
proof -
  from assms obtain ts where ts: "map (getctime dir) files = map Some ts"
    and out: "out = map snd (sort_key fst (zip ts files))"
    by (rule sort_by_ctime_Some)
  have len: "length ts = length files" using ts by (metis length_map)
  let ?z = "zip ts files"
  have sz: "map snd ?z = files" using len by simp
  have key: "getctime dir (snd p) = Some (fst p)" if "p \<in> set ?z" for p
    using zip_keys [OF ts, of "fst p" "snd p"] that by simp
  show "mset out = mset files"
  proof -
    have "mset out = image_mset snd (mset (sort_key fst ?z))" by (simp add: out)
    also have "\<dots> = mset (map snd ?z)" by simp
    finally show ?thesis by (simp only: sz)
  qed
  have keys: "map (getctime dir) out = map Some (map fst (sort_key fst ?z))"
    unfolding out by (simp add: key)
  then show "\<exists>ks. map (getctime dir) out = map Some ks \<and> sorted ks"
    using sorted_sort_key [of fst ?z] by blast
  have "filter (\<lambda>f. getctime dir f = Some t) out
          = map snd (filter (\<lambda>p. getctime dir (snd p) = Some t) (sort_key fst ?z))"
    by (simp add: out filter_map comp_def)
  also have "filter (\<lambda>p. getctime dir (snd p) = Some t) (sort_key fst ?z)
          = filter (\<lambda>p. fst p = t) (sort_key fst ?z)"
    by (rule filter_cong) (auto simp add: key)
  also have "\<dots> = filter (\<lambda>p. fst p = t) ?z" by (rule sort_key_stable)
  also have "\<dots> = filter (\<lambda>p. getctime dir (snd p) = Some t) ?z"
    by (rule filter_cong) (auto simp add: key)
  also have "map snd \<dots> = filter (\<lambda>f. getctime dir f = Some t) (map snd ?z)"
    by (simp add: filter_map comp_def)
  finally show "filter (\<lambda>f. getctime dir f = Some t) out = filter (\<lambda>f. getctime dir f = Some t) files"
    by (simp only: sz)
qed

lemma sort_by_ctime_set: "sort_by_ctime dir files = Some out \<Longrightarrow> set out = set files"
  using sort_by_ctime_props(1) mset_eq_setD by blast

lemma sort_by_ctime_defined:
  assumes "\<And>f. f \<in> set files \<Longrightarrow> getctime dir f \<noteq> None"
  shows "\<exists>out. sort_by_ctime dir files = Some out"
proof -
  have "map (getctime dir) files = map Some (map (\<lambda>f. the (getctime dir f)) files)"
    using assms by (induction files) auto
  then show ?thesis using sort_by_ctime_keys by blast
qed

lemma sort_by_ctime_unique:
  assumes a: "sort_by_ctime dir files = Some out"
    and b: "sort_by_ctime dir files' = Some out'"
    and p: "mset files' = mset files" and d: "distinct files"
    and inj: "inj_on (getctime dir) (set files)"
  shows "out' = out"
proof -
  from sort_by_ctime_props(1) [OF a] sort_by_ctime_props(1) [OF b] p
  have m: "mset out = mset files" "mset out' = mset files" by simp_all
  then have s: "set out = set files" "set out' = set files" by (metis mset_eq_setD)+
  from m d have dd: "distinct out" "distinct out'" by (metis mset_eq_imp_distinct_iff)+
  from sort_by_ctime_props(2) [OF a] obtain ks where ks: "map (getctime dir) out = map Some ks" "sorted ks" by blast
  from sort_by_ctime_props(2) [OF b] obtain ks' where ks': "map (getctime dir) out' = map Some ks'" "sorted ks'" by blast
  have "distinct (map (getctime dir) out)" using dd(1) inj s(1) by (simp add: distinct_map)
  then have d1: "distinct ks" by (simp add: ks(1) distinct_map)
  have "distinct (map (getctime dir) out')" using dd(2) inj s(2) by (simp add: distinct_map)
  then have d2: "distinct ks'" by (simp add: ks'(1) distinct_map)
  have "set (map Some ks) = set (map Some ks')"
    using ks(1) ks'(1) s by (metis set_map)
  then have "set ks = set ks'" by (simp add: inj_image_eq_iff)
  with ks(2) ks'(2) d1 d2 have "ks = ks'" by (simp add: sorted_distinct_set_unique)
  with ks(1) ks'(1) have "map (getctime dir) out = map (getctime dir) out'" by simp
  moreover have "inj_on (getctime dir) (set out \<union> set out')" using inj s by simp
  ultimately show ?thesis by (metis inj_on_map_eq_map)
qed

lemma real_image_file_iff:
  "real_image_file dir item \<longleftrightarrow>
     has_image_extension item \<and> (case dir item of None \<Rightarrow> False | Some e \<Rightarrow> accessible e)"
  by (auto simp add: real_image_file_def check_item_def path_is_file_def path_exists_def
      has_image_extension_def accessible_def Let_def
      split: option.splits bool.splits if_splits)

lemma check_item_raises: "check_item dir item = None \<longleftrightarrow> path_is_file dir item = None"
  by (auto simp add: check_item_def Let_def split: option.splits bool.splits if_splits)

lemma collected_are_real:
  "x \<in> set (collect_real_files dir l) \<Longrightarrow> x \<in> set l \<and> real_image_file dir x"
  by (induction l) (auto simp add: real_image_file_def split: option.splits bool.splits)

text \<open>
  When \<open>is_file()\<close> raises for no listed item the resolver is a filter of the listing;
  when it raises for an item, the items listed after it are not looked at.
\<close>

lemma collect_real_files_filter:
  "\<forall>x \<in> set l. path_is_file dir x \<noteq> None
     \<Longrightarrow> collect_real_files dir l = filter (real_image_file dir) l"
  by (induction l)
     (auto simp add: real_image_file_def check_item_raises [symmetric]
           split: option.splits bool.splits)

lemma collect_real_files_stops:
  "path_is_file dir item = None
     \<Longrightarrow> collect_real_files dir (before @ item # rest) = collect_real_files dir (before @ [item])"
  by (induction before)
     (auto simp add: check_item_raises [symmetric] split: option.splits bool.splits)

lemma getctime_real_image_file: "real_image_file dir f \<Longrightarrow> getctime dir f \<noteq> None"
  by (auto simp add: real_image_file_iff accessible_def getctime_def split: option.splits)

lemma resolved_sort_defined:
  "\<exists>out. sort_by_ctime dir (get_real_image_files dir listdir) = Some out"
proof (rule sort_by_ctime_defined)
  fix f assume "f \<in> set (get_real_image_files dir listdir)"
  then have "real_image_file dir f"
    by (auto simp add: get_real_image_files_def collected_are_real split: option.splits)
  then show "getctime dir f \<noteq> None" by (rule getctime_real_image_file)
qed

lemma plan_sources_subset: "fst ` set (compute_renames p files) \<subseteq> set files"
proof -
  have "set (map fst (compute_renames p files)) \<subseteq> snd ` set (enumerate 0 files)"
    unfolding sources_of_plan by auto
  also have "\<dots> \<subseteq> set files" by (auto simp add: in_set_enumerate_eq)
  finally show ?thesis by simp
qed

lemma unreadable_not_resolved:
  assumes "dir item = Some e" and "\<not> readable e"
  shows "item \<notin> set (get_real_image_files dir listdir)"
proof
  assume "item \<in> set (get_real_image_files dir listdir)"
  then have "real_image_file dir item"
    by (auto simp add: get_real_image_files_def collected_are_real split: option.splits)
  with assms show False by (simp add: real_image_file_iff accessible_def)
qed

lemma unreadable_not_planned:
  assumes "dir item = Some e" and "\<not> readable e" and "plan_of h dir listdir = Some plan"
  shows "item \<notin> fst ` set plan"
proof -
  from assms(3) obtain sorted_files where s: "sort_by_ctime dir (get_real_image_files dir listdir) = Some sorted_files"
    and p: "plan = compute_renames (prefix h) sorted_files"
    by (auto simp add: plan_of_def)
  from sort_by_ctime_set [OF s] unreadable_not_resolved [of dir item e listdir] assms(1,2)
  have "item \<notin> set sorted_files" by simp
  with plan_sources_subset [of "prefix h" sorted_files] p show ?thesis by blast
qed

section \<open>Properties of the resolver and of the two phases\<close>



lemma mset_get_real_image_files:
  assumes "\<forall>x \<in> set l. path_is_file dir x \<noteq> None" and "mset l' = mset l"
  shows "mset (get_real_image_files dir (Some l')) = mset (get_real_image_files dir (Some l))"
proof -
  from assms(2) have "set l' = set l" by (rule mset_eq_setD)
  with assms(1) have "\<forall>x \<in> set l'. path_is_file dir x \<noteq> None" by simp
  with assms show ?thesis by (simp add: get_real_image_files_def collect_real_files_filter)
qed

lemma distinct_collect_real_files: "distinct l \<Longrightarrow> distinct (collect_real_files dir l)"
proof (induction l)
  case Nil
  then show ?case by simp
next
  case (Cons a l)
  then have "a \<notin> set (collect_real_files dir l)" using collected_are_real [of a dir l] by auto
  with Cons show ?case by (auto split: option.splits bool.splits)
qed

lemma distinct_get_real_image_files:
  "distinct l \<Longrightarrow> distinct (get_real_image_files dir (Some l))"
  by (simp add: get_real_image_files_def distinct_collect_real_files)

text \<open>An error of \<open>is_file()\<close> hides the items that the directory lists after it.\<close>

lemma resolver_stops_at_is_file_error:
  "path_is_file dir item = None
     \<Longrightarrow> get_real_image_files dir (Some (before @ item # rest))
           = get_real_image_files dir (Some (before @ [item]))"
  unfolding get_real_image_files_def option.case by (rule collect_real_files_stops)

lemma phase1_append:
  "phase1 pf clock k (xs @ ys) dir tf =
     (let (d1, t1, ok1) = phase1 pf clock k xs dir tf;
          (d2, t2, ok2) = phase1 pf clock (k + length xs) ys d1 t1
      in (d2, t2, ok1 @ ok2))"
proof (induction xs arbitrary: dir tf k)
  case Nil
  then show ?case by (simp split: prod.splits)
next
  case (Cons x xs)
  obtain fp tmp fin where x: "x = (fp, tmp, fin)" by (cases x)
  show ?case
  proof (cases "rename pf (clock k) dir fp tmp")
    case None
    then show ?thesis using Cons.IH [of "k + 1" dir "insert tmp tf"] by (simp add: x)
  next
    case (Some d')
    then show ?thesis using Cons.IH [of "k + 1" d' "insert tmp tf"]
      by (simp add: x split: prod.splits)
  qed
qed

lemma phase1_continues_after_failure:
  assumes "phase1 pf clock k before dir tf = (d1, t1, ok1)"
    and "rename pf (clock (k + length before)) d1 file_path temp = None"
    and "phase1 pf clock (k + length before + 1) rest d1 (insert temp t1) = (d2, t2, ok2)"
  shows "phase1 pf clock k (before @ (file_path, temp, final) # rest) dir tf = (d2, t2, ok1 @ ok2)"
  using assms by (simp add: phase1_append)

lemma phase1_original_stops_at_failure:
  assumes "phase1_original pf clock k before dir tf = Completed (d1, t1)"
    and "rename pf (clock (k + length before)) d1 file_path temp = None"
  shows "phase1_original pf clock k (before @ (file_path, temp, final) # rest) dir tf
           = Raised (d1, insert temp t1)"
  using assms
proof (induction before arbitrary: dir tf k)
  case Nil
  then show ?case by simp
next
  case (Cons x xs)
  obtain fp tmp fin where x: "x = (fp, tmp, fin)" by (cases x)
  from Cons.prems(1) obtain d' where d': "rename pf (clock k) dir fp tmp = Some d'"
    by (cases "rename pf (clock k) dir fp tmp") (simp_all add: x)
  with Cons.prems have "phase1_original pf clock (k + 1) xs d' (insert tmp tf) = Completed (d1, t1)"
    by (simp add: x)
  moreover from Cons.prems(2)
  have "rename pf (clock (k + 1 + length xs)) d1 file_path temp = None" by simp
  ultimately show ?case using Cons.IH [of "k + 1" d' "insert tmp tf"] d' by (simp add: x)
qed

text \<open>
  While \<open>processing\<close> is set the worker of an event starts no pass and leaves the
  directory as it is (where the model has a verdict on the name).
\<close>

lemma process_new_file_guarded:
  assumes pr: "processing h"
    and pl: "list_all plain_char (prefix h)" and asc: "list_all ascii_char file_path"
  shows "\<exists>h' r. process_new_file pf clock h dir listdir file_path trace now = Some (h', dir, r) \<and>
             r \<in> {NotFound, AlreadyRenamed, Busy, Crashed}"
proof -
  from pl asc obtain b where b: "is_already_renamed (prefix h) file_path = Some b"
    by (simp add: is_already_renamed_def)
  show ?thesis
  proof (cases "path_exists dir file_path")
    case None
    then show ?thesis by (simp add: process_new_file_def)
  next
    case (Some e)
    show ?thesis
    proof (cases e)
      case False
      with Some show ?thesis by (simp add: process_new_file_def)
    next
      case True
      with Some b pr show ?thesis by (cases b) (simp_all add: process_new_file_def)
    qed
  qed
qed

lemma menu_reorganize_unguarded:
  "menu_reorganize pf clock (h\<lparr>processing := b\<rparr>) dir listdir =
     (case menu_reorganize pf clock h dir listdir of
        (h', dir', result) \<Rightarrow> (h'\<lparr>processing := b\<rparr>, dir', result))"
proof (cases "get_real_image_files dir listdir = []")
  case True
  then show ?thesis by (simp add: menu_reorganize_def reorganize_all_files_def)
next
  case ne: False
  show ?thesis
  proof (cases "sort_by_ctime dir (get_real_image_files dir listdir)")
    case None
    with ne show ?thesis by (simp add: menu_reorganize_def reorganize_all_files_def)
  next
    case (Some files)
    let ?plan = "compute_renames (prefix h) files"
    show ?thesis
    proof (cases "?plan = []")
      case True
      with ne Some show ?thesis by (simp add: menu_reorganize_def reorganize_all_files_def)
    next
      case False
      obtain d1 t1 ok1 where p1: "phase1 pf clock 0 ?plan dir (temp_files h) = (d1, t1, ok1)"
        by (cases "phase1 pf clock 0 ?plan dir (temp_files h)")
      show ?thesis
      proof (cases "phase2 pf clock (length ?plan) ok1 d1 t1 0")
        case (Completed st)
        obtain d2 t2 n where "st = (d2, t2, n)" by (cases st)
        with Completed ne Some False p1 show ?thesis
          by (simp add: menu_reorganize_def reorganize_all_files_def)
      next
        case (Raised st)
        obtain d2 t2 n where "st = (d2, t2, n)" by (cases st)
        with Raised ne Some False p1 show ?thesis
          by (simp add: menu_reorganize_def reorganize_all_files_def)
      qed
    qed
  qed
qed


section \<open>Renames as moves of directory entries\<close>



















section \<open>The effect of a pass\<close>





























section \<open>Two examples of what the environment can do\<close>

text \<open>
  \<open>a.png\<close> and \<open>b.png\<close> are ordinary files and \<open>is_file()\<close> raises for the entry \<open>locked\<close>.
  Listed before \<open>b.png\<close> it hides \<open>b.png\<close> from the resolver, listed last it hides nothing.
\<close>

lemma is_file_error_hides_later_entries:
  "get_real_image_files
     [''a.png'' \<mapsto> regular_file 10 1, ''locked'' \<mapsto> (regular_file 10 2)\<lparr>is_file := None\<rparr>,
      ''b.png'' \<mapsto> regular_file 10 3]
     (Some [''a.png'', ''locked'', ''b.png'']) = [''a.png''] \<and>
   get_real_image_files
     [''a.png'' \<mapsto> regular_file 10 1, ''locked'' \<mapsto> (regular_file 10 2)\<lparr>is_file := None\<rparr>,
      ''b.png'' \<mapsto> regular_file 10 3]
     (Some [''a.png'', ''b.png'', ''locked'']) = [''a.png'', ''b.png'']"
  by code_simp

text \<open>
  On POSIX \<open>getctime\<close> is the time of the last change of the inode, and a rename is such a
  change. \<open>Horizon_02.png\<close> is older than \<open>a.png\<close> and has its final name already; the
  pass renames \<open>a.png\<close> to \<open>Horizon_01.png\<close>, which is then the newer of the two for
  \<open>getctime\<close>, and a second pass plans to swap the names.
\<close>

lemma second_pass_renames_again_on_posix:
  "(case reorganize_all_files posix example_clock (new_handler ''Horizon'')
           [''a.png'' \<mapsto> regular_file 10 1, ''Horizon_02.png'' \<mapsto> regular_file 10 2]
           (Some [''a.png'', ''Horizon_02.png'']) of
      (h', dir', result) \<Rightarrow>
        result = Reorganized 1 1 \<and>
        dir' ''a.png'' = None \<and>
        dir' ''Horizon_01.png'' = Some (regular_file 10 101) \<and>
        dir' ''Horizon_02.png'' = Some (regular_file 10 2) \<and>
        plan_of h' dir' (Some [''Horizon_01.png'', ''Horizon_02.png''])
          = Some [(''Horizon_02.png'', ''TEMP_01_Horizon.png'', ''Horizon_01.png''),
                  (''Horizon_01.png'', ''TEMP_02_Horizon.png'', ''Horizon_02.png'')])"
  by code_simp

section \<open>The claims\<close>

subsection \<open>Plan computation\<close>

text \<open>
  Claim C2. For every ordered file list and every prefix, the temporary names of the plan
  computed in one pass are pairwise distinct, and none of them is a final name of that
  plan. This holds for the plan of the corrected watcher and for that of the original.
  (The \<open>T\<close> of the \<open>TEMP_\<close> marker makes the difference: a temporary name has
  one capital \<open>T\<close> more than any final name, the extension being in lower case.)
\<close>

theorem temporary_names_distinct_and_apart_from_final_names:
  "distinct (map (fst \<circ> snd) (compute_renames p files)) \<and>
   set (map (fst \<circ> snd) (compute_renames p files))
     \<inter> set (map (snd \<circ> snd) (compute_renames p files)) = {} \<and>
   distinct (map (fst \<circ> snd) (fst (compute_temp_names p files))) \<and>
   set (map (fst \<circ> snd) (fst (compute_temp_names p files)))
     \<inter> set (map (snd \<circ> snd) (fst (compute_temp_names p files))) = {}"
  unfolding compute_temp_names_eq fst_conv
  using distinct_temps [of p files] temps_finals_disjoint [of p files]
  by (intro conjI)

theorem temporary_names_distinct_and_apart_from_final_names_witness:
  "compute_renames ''Horizon'' [''vacation.png'', ''IMG_002.jpg'', ''Horizon_01.jpeg''] =
     [(''vacation.png'', ''TEMP_01_Horizon.png'', ''Horizon_01.png''),
      (''IMG_002.jpg'', ''TEMP_02_Horizon.jpg'', ''Horizon_02.jpg''),
      (''Horizon_01.jpeg'', ''TEMP_03_Horizon.jpeg'', ''Horizon_03.jpeg'')] \<and>
   distinct (map (fst \<circ> snd)
     (compute_renames ''Horizon'' [''vacation.png'', ''IMG_002.jpg'', ''Horizon_01.jpeg''])) \<and>
   set (map (fst \<circ> snd)
     (compute_renames ''Horizon'' [''vacation.png'', ''IMG_002.jpg'', ''Horizon_01.jpeg'']))
     \<inter> set (map (snd \<circ> snd)
     (compute_renames ''Horizon'' [''vacation.png'', ''IMG_002.jpg'', ''Horizon_01.jpeg''])) = {}"
proof -
  have "compute_renames ''Horizon'' [''vacation.png'', ''IMG_002.jpg'', ''Horizon_01.jpeg''] =
     [(''vacation.png'', ''TEMP_01_Horizon.png'', ''Horizon_01.png''),
      (''IMG_002.jpg'', ''TEMP_02_Horizon.jpg'', ''Horizon_02.jpg''),
      (''Horizon_01.jpeg'', ''TEMP_03_Horizon.jpeg'', ''Horizon_03.jpeg'')]"
    by code_simp
  then show ?thesis
    using temporary_names_distinct_and_apart_from_final_names
            [of "''Horizon''" "[''vacation.png'', ''IMG_002.jpg'', ''Horizon_01.jpeg'']"]
    by (intro conjI) (simp_all only: simp_thms)
qed

text \<open>
  Claim C10. For every ordered file list and every prefix the plan of the original watcher
  and the plan of the corrected watcher are the same sequence of triples: the entry for the
  file at index \<open>i\<close> has the final name \<open><prefix>_<i+1 padded to 2><lowercased ext>\<close> and the
  temporary name \<open>TEMP_<i+1 padded to 2>_<prefix><lowercased ext>\<close>, and a file has an entry
  exactly when its current name differs from its final name. (The second list of the
  original, \<open>files_to_rename\<close>, holds the paths of these entries.)
\<close>

theorem original_and_corrected_plans_agree:
  "fst (compute_temp_names p files) = compute_renames p files \<and>
   snd (compute_temp_names p files) = map fst (compute_renames p files) \<and>
   compute_renames p files =
     map (\<lambda>(i, f). (f, temp_for p i f, expected_for p i f))
         (filter (\<lambda>(i, f). f \<noteq> expected_for p i f) (enumerate 0 files))"
  unfolding compute_temp_names_eq fst_conv snd_conv
  using compute_renames_eq [of p files] by (intro conjI refl)

theorem original_and_corrected_plans_agree_witness:
  "fst (compute_temp_names ''Horizon'' [''Horizon_01.png'', ''b.JPG'']) =
     [(''b.JPG'', ''TEMP_02_Horizon.jpg'', ''Horizon_02.jpg'')] \<and>
   compute_renames ''Horizon'' [''Horizon_01.png'', ''b.JPG''] =
     [(''b.JPG'', ''TEMP_02_Horizon.jpg'', ''Horizon_02.jpg'')]"
proof -
  have "compute_renames ''Horizon'' [''Horizon_01.png'', ''b.JPG''] =
     [(''b.JPG'', ''TEMP_02_Horizon.jpg'', ''Horizon_02.jpg'')]"
    by code_simp
  then show ?thesis
    using original_and_corrected_plans_agree [of "''Horizon''" "[''Horizon_01.png'', ''b.JPG'']"]
    by simp
qed

text \<open>
  Claim C8. Every final name of a plan should have the wire format
  \<open>^<prefix>_\d{2,}\.(png|jpg|jpeg)$\<close>. A file named \<open>.png\<close> is accepted by the resolver of
  the corrected watcher and by the \<open>glob\<close> of the original one (its name ends with
  \<open>.png\<close>), but \<open>Path.suffix\<close> of such a name is empty: both watchers plan the final name
  \<open>Horizon_01\<close> for it, which has no extension.
\<close>

theorem final_name_of_bare_extension_has_no_extension:
  "get_real_image_files [''.png'' \<mapsto> regular_file 10 1] (Some [''.png'']) = [''.png''] \<and>
   plan_of (new_handler ''Horizon'') [''.png'' \<mapsto> regular_file 10 1] (Some [''.png''])
     = Some [(''.png'', ''TEMP_01_Horizon'', ''Horizon_01'')] \<and>
   glob_image_files posix (Some [''.png'']) = [''.png''] \<and>
   plan_of_original posix (new_handler ''Horizon'') [''.png'' \<mapsto> regular_file 10 1]
       (Some [''.png''])
     = Some [(''.png'', ''TEMP_01_Horizon'', ''Horizon_01'')] \<and>
   \<not> wire_format ''Horizon'' ''Horizon_01''"
  by code_simp

subsection \<open>The stability probe\<close>

text \<open>
  Claim C9. If the timeout of 5 seconds elapses before the probe has returned (the polls
  of \<open>pre\<close> neither reached two consecutive unchanged positive sizes nor found the file
  gone, and the next reading of the clock is at 5 seconds or later), the probe returns
  true exactly when the final \<open>stat\<close> succeeds with a strictly positive size, and false
  when the size is zero or the file cannot be accessed. Both watchers.
\<close>

theorem timeout_falls_back_to_final_size:
  assumes "stable_loop 5 pre (- 1) 0 = None" and "5 \<le> t"
  shows "wait_for_file_stable (pre @ (t, p) # rest) = Some (case p of Size n \<Rightarrow> 0 < n | _ \<Rightarrow> False)
       \<and> wait_file_stable (pre @ (t, p) # rest) = Some (case p of Size n \<Rightarrow> 0 < n | _ \<Rightarrow> False)"
  using stable_loop_timeout [OF assms]
  by (simp add: wait_for_file_stable_def wait_file_stable_def)

theorem timeout_falls_back_to_final_size_witness:
  "stable_loop 5 [(0, Size 10), (0.2, Size 20), (2, Size 0)] (- 1) 0 = None \<and> (5::real) \<le> 5.1 \<and>
   wait_for_file_stable ([(0, Size 10), (0.2, Size 20), (2, Size 0)] @ (5.1, Size 30) # []) = Some True \<and>
   wait_file_stable ([(0, Size 10), (0.2, Size 20), (2, Size 0)] @ (5.1, Size 0) # []) = Some False \<and>
   wait_file_stable ([(0, Size 10), (0.2, Size 20), (2, Size 0)] @ (5.1, Gone) # []) = Some False"
proof -
  have a: "stable_loop 5 [(0, Size 10), (0.2, Size 20), (2, Size 0)] (- 1) 0 = None" by simp
  have b: "(5::real) \<le> 5.1" by simp
  show ?thesis
    using timeout_falls_back_to_final_size [OF a b, of "Size 30" "[]"]
          timeout_falls_back_to_final_size [OF a b, of "Size 0" "[]"]
          timeout_falls_back_to_final_size [OF a b, of "Gone" "[]"] a b
    by simp
qed

subsection \<open>The resolver\<close>

text \<open>
  Claim C4, as the code has it. The surviving files are ordered by creation time
  ascending with a stable sort and no second key: the result is a permutation of the
  resolved files, its creation times ascend, and files with equal creation times keep the
  order the directory listing gave them. When the creation times of the resolved files
  are pairwise distinct and \<open>is_file()\<close> raises for no listed entry, every listing order
  of the same entries gives the same result. (An error of \<open>is_file()\<close> ends the loop of the
  resolver, so that the entries listed after it are not resolved: lemmas
  \<open>resolver_stops_at_is_file_error\<close> and \<open>is_file_error_hides_later_entries\<close>.)
\<close>

theorem resolver_sorts_by_creation_time_and_keeps_listing_order_on_ties:
  assumes "sort_by_ctime dir (get_real_image_files dir (Some listing)) = Some out"
  shows "mset out = mset (get_real_image_files dir (Some listing)) \<and>
         (\<exists>ks. map (getctime dir) out = map Some ks \<and> sorted ks) \<and>
         filter (\<lambda>f. getctime dir f = Some t) out
           = filter (\<lambda>f. getctime dir f = Some t) (get_real_image_files dir (Some listing)) \<and>
         (mset listing' = mset listing \<and> distinct listing \<and> inj_on (getctime dir) (set out)
            \<and> (\<forall>x \<in> set listing. path_is_file dir x \<noteq> None)
            \<longrightarrow> sort_by_ctime dir (get_real_image_files dir (Some listing')) = Some out)"
proof (intro conjI impI)
  show "mset out = mset (get_real_image_files dir (Some listing))"
    by (rule sort_by_ctime_props(1) [OF assms])
  show "\<exists>ks. map (getctime dir) out = map Some ks \<and> sorted ks"
    by (rule sort_by_ctime_props(2) [OF assms])
  show "filter (\<lambda>f. getctime dir f = Some t) out
           = filter (\<lambda>f. getctime dir f = Some t) (get_real_image_files dir (Some listing))"
    by (rule sort_by_ctime_props(3) [OF assms])
next
  assume h: "mset listing' = mset listing \<and> distinct listing \<and> inj_on (getctime dir) (set out)
               \<and> (\<forall>x \<in> set listing. path_is_file dir x \<noteq> None)"
  then have nr: "\<forall>x \<in> set listing. path_is_file dir x \<noteq> None"
    and ml: "mset listing' = mset listing" and dl: "distinct listing"
    and io: "inj_on (getctime dir) (set out)" by simp_all
  obtain out' where o: "sort_by_ctime dir (get_real_image_files dir (Some listing')) = Some out'"
    using resolved_sort_defined by blast
  have "set out = set (get_real_image_files dir (Some listing))"
    by (rule sort_by_ctime_set [OF assms])
  with io have inj: "inj_on (getctime dir) (set (get_real_image_files dir (Some listing)))" by simp
  have m: "mset (get_real_image_files dir (Some listing'))
             = mset (get_real_image_files dir (Some listing))"
    by (rule mset_get_real_image_files [OF nr ml])
  have d: "distinct (get_real_image_files dir (Some listing))"
    by (rule distinct_get_real_image_files [OF dl])
  have "out' = out"
    using assms o m d inj
    by (intro sort_by_ctime_unique [of dir "get_real_image_files dir (Some listing)" out
          "get_real_image_files dir (Some listing')" out']) simp_all
  with o show "sort_by_ctime dir (get_real_image_files dir (Some listing')) = Some out" by simp
qed

theorem resolver_sorts_by_creation_time_and_keeps_listing_order_on_ties_witness:
  "sort_by_ctime [''c.png'' \<mapsto> regular_file 10 3, ''a.png'' \<mapsto> regular_file 10 1, ''b.jpg'' \<mapsto> regular_file 10 2]
     (get_real_image_files [''c.png'' \<mapsto> regular_file 10 3, ''a.png'' \<mapsto> regular_file 10 1, ''b.jpg'' \<mapsto> regular_file 10 2]
        (Some [''c.png'', ''a.png'', ''b.jpg''])) = Some [''a.png'', ''b.jpg'', ''c.png''] \<and>
   mset [''b.jpg'', ''c.png'', ''a.png''] = mset [''c.png'', ''a.png'', ''b.jpg''] \<and>
   distinct [''c.png'', ''a.png'', ''b.jpg''] \<and>
   inj_on (getctime [''c.png'' \<mapsto> regular_file 10 3, ''a.png'' \<mapsto> regular_file 10 1, ''b.jpg'' \<mapsto> regular_file 10 2])
     (set [''a.png'', ''b.jpg'', ''c.png'']) \<and>
   list_all (\<lambda>x. path_is_file [''c.png'' \<mapsto> regular_file 10 3, ''a.png'' \<mapsto> regular_file 10 1,
                                ''b.jpg'' \<mapsto> regular_file 10 2] x \<noteq> None)
     [''c.png'', ''a.png'', ''b.jpg''] \<and>
   sort_by_ctime [''c.png'' \<mapsto> regular_file 10 3, ''a.png'' \<mapsto> regular_file 10 1, ''b.jpg'' \<mapsto> regular_file 10 2]
     (get_real_image_files [''c.png'' \<mapsto> regular_file 10 3, ''a.png'' \<mapsto> regular_file 10 1, ''b.jpg'' \<mapsto> regular_file 10 2]
        (Some [''b.jpg'', ''c.png'', ''a.png''])) = Some [''a.png'', ''b.jpg'', ''c.png'']"
proof -
  let ?d = "[''c.png'' \<mapsto> regular_file 10 3, ''a.png'' \<mapsto> regular_file 10 1, ''b.jpg'' \<mapsto> regular_file 10 2]"
  have a: "sort_by_ctime ?d (get_real_image_files ?d (Some [''c.png'', ''a.png'', ''b.jpg'']))
             = Some [''a.png'', ''b.jpg'', ''c.png'']"
    by code_simp
  have b: "mset [''b.jpg'', ''c.png'', ''a.png''] = mset [''c.png'', ''a.png'', ''b.jpg'']"
    by (simp add: add.commute)
  have c: "distinct [''c.png'', ''a.png'', ''b.jpg'']" by simp
  have d: "inj_on (getctime ?d) (set [''a.png'', ''b.jpg'', ''c.png''])"
    by (simp add: getctime_def regular_file_def)
  have e: "\<forall>x \<in> set [''c.png'', ''a.png'', ''b.jpg'']. path_is_file ?d x \<noteq> None"
    by (auto simp add: path_is_file_def regular_file_def)
  from resolver_sorts_by_creation_time_and_keeps_listing_order_on_ties
         [OF a, of _ "[''b.jpg'', ''c.png'', ''a.png'']"] a b c d e
  have "sort_by_ctime ?d (get_real_image_files ?d (Some [''b.jpg'', ''c.png'', ''a.png'']))
          = Some [''a.png'', ''b.jpg'', ''c.png'']" by blast
  with a b c d e show ?thesis unfolding list_all_iff by (intro conjI)
qed

text \<open>
  Claim C4 as stated fails: of two files with the same creation time the one listed first
  comes first, whatever the names, so the order depends on the listing order. The same
  sort is used by the original watcher on the result of \<open>glob\<close>.
\<close>

theorem ties_follow_the_listing_order:
  "sort_by_ctime [''a.png'' \<mapsto> regular_file 10 1, ''b.png'' \<mapsto> regular_file 10 1]
     (get_real_image_files [''a.png'' \<mapsto> regular_file 10 1, ''b.png'' \<mapsto> regular_file 10 1]
        (Some [''b.png'', ''a.png''])) = Some [''b.png'', ''a.png''] \<and>
   sort_by_ctime [''a.png'' \<mapsto> regular_file 10 1, ''b.png'' \<mapsto> regular_file 10 1]
     (get_real_image_files [''a.png'' \<mapsto> regular_file 10 1, ''b.png'' \<mapsto> regular_file 10 1]
        (Some [''a.png'', ''b.png''])) = Some [''a.png'', ''b.png''] \<and>
   sort_by_ctime [''a.png'' \<mapsto> regular_file 10 1, ''b.png'' \<mapsto> regular_file 10 1]
     (glob_image_files posix (Some [''b.png'', ''a.png''])) = Some [''b.png'', ''a.png'']"
  by code_simp

text \<open>
  Claim C7. An entry whose \<open>stat\<close> succeeds and whose one-byte read fails should never be
  in a plan. The corrected watcher excludes it (lemmas \<open>unreadable_not_resolved\<close> and
  \<open>unreadable_not_planned\<close>); the original watcher takes whatever \<open>glob\<close> returns, without
  any read check, and plans a rename for it.
\<close>

theorem original_plans_an_unreadable_file:
  "glob_image_files posix (Some [''secret.png'']) = [''secret.png''] \<and>
   plan_of_original posix (new_handler ''Horizon'')
       [''secret.png'' \<mapsto> (regular_file 10 1)\<lparr>readable := False\<rparr>] (Some [''secret.png''])
     = Some [(''secret.png'', ''TEMP_01_Horizon.png'', ''Horizon_01.png'')] \<and>
   get_real_image_files [''secret.png'' \<mapsto> (regular_file 10 1)\<lparr>readable := False\<rparr>]
       (Some [''secret.png'']) = [] \<and>
   plan_of (new_handler ''Horizon'')
       [''secret.png'' \<mapsto> (regular_file 10 1)\<lparr>readable := False\<rparr>] (Some [''secret.png''])
     = Some []"
  by code_simp

subsection \<open>Plan execution and triggers\<close>

text \<open>
  Claim C6. A rename that fails in phase 1 should exclude only its own entry. The
  corrected watcher does that (lemma \<open>phase1_continues_after_failure\<close>); in the original
  watcher the exception leaves the loop (lemma \<open>phase1_original_stops_at_failure\<close>), so
  that the entries after the failing one are never renamed and phase 2 does not run.
  Here \<open>a.png\<close> cannot be renamed and \<open>b.png\<close> can.
\<close>

theorem original_aborts_the_plan_at_a_failing_rename:
  "(case reorganize_all_files_original posix example_clock (new_handler ''Horizon'')
           [''a.png'' \<mapsto> (regular_file 10 1)\<lparr>renamable := False\<rparr>, ''b.png'' \<mapsto> regular_file 10 2]
           (Some [''a.png'', ''b.png'']) of
      (h', dir', result) \<Rightarrow>
        result = Failed \<and> dir' ''b.png'' = Some (regular_file 10 2) \<and>
        dir' ''TEMP_02_Horizon.png'' = None \<and> dir' ''Horizon_02.png'' = None) \<and>
   (case reorganize_all_files posix example_clock (new_handler ''Horizon'')
           [''a.png'' \<mapsto> (regular_file 10 1)\<lparr>renamable := False\<rparr>, ''b.png'' \<mapsto> regular_file 10 2]
           (Some [''a.png'', ''b.png'']) of
      (h', dir', result) \<Rightarrow>
        result = Reorganized 2 1 \<and> dir' ''b.png'' = None \<and>
        dir' ''Horizon_02.png'' = Some (regular_file 10 102) \<and>
        dir' ''a.png'' = Some ((regular_file 10 1)\<lparr>renamable := False\<rparr>))"
  by code_simp

text \<open>
  Claim C5. The manual reorganisation of the menu should be a no-op while a pass is in
  flight. It calls \<open>reorganize_all_files\<close> directly, which never reads \<open>processing\<close>: with
  the flag set it still renames, in both watchers, where the worker of an event
  (\<open>process_new_file\<close>) returns at once.
\<close>

theorem manual_reorganisation_ignores_the_processing_flag:
  "processing ((new_handler ''Horizon'')\<lparr>processing := True\<rparr>) \<and>
   (case menu_reorganize posix example_clock ((new_handler ''Horizon'')\<lparr>processing := True\<rparr>)
           [''a.png'' \<mapsto> regular_file 10 1] (Some [''a.png'']) of
      (h', dir', result) \<Rightarrow>
        result = Reorganized 1 1 \<and> dir' ''a.png'' = None \<and>
        dir' ''Horizon_01.png'' = Some (regular_file 10 101)) \<and>
   (case menu_reorganize_original posix example_clock ((new_handler ''Horizon'')\<lparr>processing := True\<rparr>)
           [''a.png'' \<mapsto> regular_file 10 1] (Some [''a.png'']) of
      (h', dir', result) \<Rightarrow>
        result = Reorganized 1 1 \<and> dir' ''a.png'' = None \<and>
        dir' ''Horizon_01.png'' = Some (regular_file 10 101)) \<and>
   (case process_new_file posix example_clock ((new_handler ''Horizon'')\<lparr>processing := True\<rparr>)
           [''a.png'' \<mapsto> regular_file 10 1] (Some [''a.png'']) ''a.png'' [] 0 of
      None \<Rightarrow> False
    | Some (h', dir', result) \<Rightarrow>
        result = Busy \<and> dir' ''a.png'' = Some (regular_file 10 1) \<and> dir' ''Horizon_01.png'' = None)"
  by code_simp

subsection \<open>Whole passes\<close>

text \<open>
  Claim C1. After a pass in which every rename succeeds the accessible image files should
  be named \<open><prefix>_01\<close> to \<open><prefix>_NN\<close> without gaps. The original watcher does not
  do this where \<open>glob\<close> ignores case, as \<open>pathlib\<close> does on Windows: \<open>glob("*.png")\<close> and
  \<open>glob("*.PNG")\<close> then both return every \<open>.png\<close> file, each file is in the list twice,
  and a single correctly named file \<open>Horizon_01.png\<close> is renamed to \<open>Horizon_02.png\<close>,
  every rename succeeding. The corrected watcher lists the directory once; for it, where
  a rename keeps the creation time, lemma
  \<open>successful_corrected_pass_puts_files_at_final_names\<close> says that the file at index \<open>i\<close>
  of the ordered list of the resolved files ends at its final name.
\<close>

theorem original_on_windows_renumbers_a_single_file:
  "glob_image_files windows (Some [''Horizon_01.png'']) = [''Horizon_01.png'', ''Horizon_01.png''] \<and>
   (case reorganize_all_files_original windows example_clock (new_handler ''Horizon'')
           [''Horizon_01.png'' \<mapsto> regular_file 10 1] (Some [''Horizon_01.png'']) of
      (h', dir', result) \<Rightarrow>
        result = Reorganized 1 1 \<and> dir' ''Horizon_01.png'' = None \<and>
        dir' ''Horizon_02.png'' = Some (regular_file 10 1))"
  by code_simp




end
